theory Spec2Isabelle
  imports Complex_Main "HOL-Library.Sublist" "HOL-Library.Log_Nat"
begin

section \<open>Weed-Detector: the live-inference pipeline\<close>

text \<open>
  A shallow embedding of \<^verbatim>\<open>src/services/geminiService.ts\<close> (the analyzer
  wrapper \<^verbatim>\<open>analyzeWeedImage\<close>) and of the live part of \<^verbatim>\<open>src/App.tsx\<close>
  (\<^verbatim>\<open>getDevices\<close>, \<^verbatim>\<open>toggleCamera\<close>, the inference effect with
  \<^verbatim>\<open>captureFrameAndAnalyze\<close>, the filter toggle and the overlay filter).

  Conventions of the model:
  \<^item> a JavaScript \<^verbatim>\<open>number\<close> on which the program computes (the coordinates of
    a bounding box and of a region) is an IEEE 754 double, the type \<open>js_number\<close>
    below, and \<^verbatim>\<open>-\<close> and \<^verbatim>\<open>*\<close> round as the hardware does; a number that is
    only carried along (a confidence, a yield loss, a dosage) is a \<^typ>\<open>real\<close>;
    \<^verbatim>\<open>Date.now()\<close> and array indices are \<^typ>\<open>int\<close> and \<^typ>\<open>nat\<close>;
  \<^item> a \<^verbatim>\<open>Set<string>\<close> is a \<^typ>\<open>string set\<close> (the insertion order of a
    JavaScript set is not modelled);
  \<^item> an optional field is an \<^typ>\<open>'a option\<close>, \<open>None\<close> standing for
    \<^verbatim>\<open>undefined\<close>;
  \<^item> a promise that resolves or rejects is a sum, \<open>Inl\<close> the thrown value;
  \<^item> React state is a record; a closure created by an effect carries the values it
    captured in fields of their own.
\<close>

subsection \<open>JavaScript numbers\<close>

text \<open>
  The exponent of a rational \<open>x \<noteq> 0\<close>: the integer \<open>e\<close> with
  \<open>2 ^ e \<le> |x| < 2 ^ (e + 1)\<close>. With \<open>|x| = p / q\<close> in lowest terms,
  \<open>e\<close> is the difference of the bit lengths of \<open>p\<close> and \<open>q\<close>, or one less.
\<close>

definition binary_exponent :: "rat \<Rightarrow> int" where
  "binary_exponent x =
     (case quotient_of \<bar>x\<bar> of (p, q) \<Rightarrow>
        let d = bitlen p - bitlen q in if 2 powi d \<le> \<bar>x\<bar> then d else d - 1)"

text \<open>Rounding to the nearest integer, a tie going to the even one.\<close>

definition round_half_even :: "rat \<Rightarrow> int" where
  "round_half_even m =
     (let f = \<lfloor>m\<rfloor>; r = m - of_int f
      in if r < 1 / 2 then f else if 1 / 2 < r then f + 1 else if even f then f else f + 1)"

text \<open>
  The rounding of IEEE 754 binary64, round to nearest, ties to even, before the test
  for overflow: a significand of 53 bits, and the spacing of the subnormal numbers,
  \<open>1 / 2 ^ 1074\<close>, below the exponent \<open>-1022\<close>.
\<close>

definition round_double :: "rat \<Rightarrow> rat" where
  "round_double x =
     (if x = 0 then 0
      else let e = max (binary_exponent x) (- 1022); ulp = 2 powi (e - 52)
           in of_int (round_half_even (x / ulp)) * ulp)"

text \<open>
  A \<^verbatim>\<open>number\<close>: a finite double, given by its value, an infinity, or NaN. The
  two zeros are one value \<open>Num 0\<close>: nothing here tells them apart.
\<close>

datatype js_number = Num rat | PosInfinity | NegInfinity | NaN

text \<open>
  The double nearest to a rational: what \<^verbatim>\<open>JSON.parse\<close> and the compiler make of
  a decimal numeral, and what an arithmetic operation makes of its exact result. A
  rounded value of exponent above 1023, that is of magnitude \<open>2 ^ 1024\<close> or more,
  overflows to the infinity of its sign.
\<close>

definition to_double :: "rat \<Rightarrow> js_number" where
  "to_double x =
     (let y = round_double x
      in if y \<noteq> 0 \<and> 1023 < binary_exponent y
         then (if 0 < y then PosInfinity else NegInfinity)
         else Num y)"

text \<open>The operator \<^verbatim>\<open>-\<close> on numbers.\<close>

fun js_sub :: "js_number \<Rightarrow> js_number \<Rightarrow> js_number" where
  "js_sub (Num a) (Num b) = to_double (a - b)"
| "js_sub NaN _ = NaN"
| "js_sub _ NaN = NaN"
| "js_sub PosInfinity PosInfinity = NaN"
| "js_sub NegInfinity NegInfinity = NaN"
| "js_sub PosInfinity _ = PosInfinity"
| "js_sub NegInfinity _ = NegInfinity"
| "js_sub _ PosInfinity = NegInfinity"
| "js_sub _ NegInfinity = PosInfinity"

fun js_sign :: "js_number \<Rightarrow> int" where
  "js_sign (Num r) = (if 0 < r then 1 else if r < 0 then - 1 else 0)"
| "js_sign PosInfinity = 1"
| "js_sign NegInfinity = - 1"
| "js_sign NaN = 0"

text \<open>
  The operator \<^verbatim>\<open>*\<close> on numbers. With an infinite factor the product is NaN when
  the other factor is zero, and an infinity with the product of the signs otherwise.
\<close>

fun js_mul :: "js_number \<Rightarrow> js_number \<Rightarrow> js_number" where
  "js_mul (Num a) (Num b) = to_double (a * b)"
| "js_mul NaN _ = NaN"
| "js_mul _ NaN = NaN"
| "js_mul a b =
     (if js_sign a * js_sign b = 0 then NaN
      else if 0 < js_sign a * js_sign b then PosInfinity
      else NegInfinity)"

subsection \<open>types.ts\<close>

text \<open>
  \<^verbatim>\<open>DetectionResult\<close>: \<^verbatim>\<open>bbox?: number[]\<close> is
  \<^verbatim>\<open>[ymin, xmin, ymax, xmax]\<close>, of any length at run time.
\<close>

record DetectionResult =
  weedType :: string
  confidence :: real
  bbox :: "js_number list option"
  description :: string

datatype CropContext = Cotton | Beet | Unknown

datatype WeedDensity = Low | Medium | High

text \<open>
  \<^verbatim>\<open>EcoAnalysis\<close>. The interface declares \<^verbatim>\<open>detections\<close> as
  mandatory, but the value returned by the service is parsed JSON cast with
  \<^verbatim>\<open>as EcoAnalysis\<close>, and App.tsx tests \<^verbatim>\<open>result.detections\<close> for
  truthiness: the field is optional here.
\<close>

record EcoAnalysis =
  cropContext :: CropContext
  weedDensity :: WeedDensity
  remediationAdvice :: string
  estimatedYieldLoss :: real
  herbicideDosage :: real
  detections :: "DetectionResult list option"

subsection \<open>geminiService.ts\<close>

text \<open>
  A thrown value as the \<^verbatim>\<open>catch\<close> block reads it: \<^verbatim>\<open>error.message\<close>
  (a string or absent) and \<^verbatim>\<open>error.status\<close> (absent, a number or a string).
\<close>

datatype err_status = StatusNone | StatusNum int | StatusStr string

record js_error =
  message :: "string option"
  status :: err_status

text \<open>A detection as the model's JSON has it, before \<^verbatim>\<open>box_2d\<close> is renamed.\<close>

record RawDetection =
  raw_weedType :: string
  raw_confidence :: real
  raw_description :: string
  box_2d :: "js_number list option"
  raw_bbox :: "js_number list option"

text \<open>
  The \<^verbatim>\<open>detections\<close> member of the parsed JSON: falsy (absent), an array,
  or a truthy value that is no array, on which \<^verbatim>\<open>.map\<close> raises a TypeError.
\<close>

datatype json_detections = DetsAbsent | DetsArray "RawDetection list" | DetsNotArray

record ParsedData =
  p_cropContext :: CropContext
  p_weedDensity :: WeedDensity
  p_remediationAdvice :: string
  p_estimatedYieldLoss :: real
  p_herbicideDosage :: real
  p_detections :: json_detections

text \<open>
  What the remote call does, seen from \<^verbatim>\<open>analyzeWeedImage\<close>: the promise of
  \<^verbatim>\<open>ai.models.generateContent\<close> rejects; it resolves with a falsy
  \<^verbatim>\<open>response.text\<close>; the cleaned text makes \<^verbatim>\<open>JSON.parse\<close> throw;
  or the text parses. The network and the JSON parser are outside the repository.
\<close>

datatype api_outcome =
    Rejected js_error
  | NoText
  | BadJson js_error
  | Parsed ParsedData

text \<open>\<^verbatim>\<open>String.prototype.includes\<close>: \<open>t\<close> occurs in \<open>s\<close> as a substring.\<close>

fun str_includes :: "string \<Rightarrow> string \<Rightarrow> bool" where
  "str_includes [] t = (t = [])"
| "str_includes (c # s) t = (prefix t (c # s) \<or> str_includes s t)"

text \<open>\<^verbatim>\<open>{ ...d, bbox: d.box_2d || d.bbox }\<close>: an array is truthy, also when empty.\<close>

definition normalize_detection :: "RawDetection \<Rightarrow> DetectionResult" where
  "normalize_detection d =
     \<lparr>weedType = raw_weedType d,
      confidence = raw_confidence d,
      bbox = (case box_2d d of Some b \<Rightarrow> Some b | None \<Rightarrow> raw_bbox d),
      description = raw_description d\<rparr>"

definition as_EcoAnalysis :: "ParsedData \<Rightarrow> DetectionResult list option \<Rightarrow> EcoAnalysis" where
  "as_EcoAnalysis d ds =
     \<lparr>cropContext = p_cropContext d,
      weedDensity = p_weedDensity d,
      remediationAdvice = p_remediationAdvice d,
      estimatedYieldLoss = p_estimatedYieldLoss d,
      herbicideDosage = p_herbicideDosage d,
      detections = ds\<rparr>"

text \<open>
  The \<^verbatim>\<open>try\<close> block of \<^verbatim>\<open>analyzeWeedImage\<close> (lines 39-95): \<open>Inl\<close> is the
  value thrown inside it, \<open>Inr\<close> the value of its \<^verbatim>\<open>return\<close>.
\<close>

fun try_block :: "api_outcome \<Rightarrow> js_error + EcoAnalysis" where
  "try_block (Rejected e) = Inl e"
| "try_block NoText =
     Inl \<lparr>message = Some ''No response text from Gemini'', status = StatusNone\<rparr>"
| "try_block (BadJson e) = Inl e"
| "try_block (Parsed d) =
     (case p_detections d of
        DetsAbsent \<Rightarrow> Inr (as_EcoAnalysis d None)
      | DetsArray ds \<Rightarrow> Inr (as_EcoAnalysis d (Some (map normalize_detection ds)))
      | DetsNotArray \<Rightarrow>
          Inl \<lparr>message = Some ''data.detections.map is not a function'', status = StatusNone\<rparr>)"

text \<open>
  The test of the \<^verbatim>\<open>catch\<close> block:
  \<^verbatim>\<open>error.message?.includes("429") || error.status === 429 || error.status === "RESOURCE_EXHAUSTED"\<close>.
\<close>

definition is_rate_limit :: "js_error \<Rightarrow> bool" where
  "is_rate_limit e =
     ((case message e of None \<Rightarrow> False | Some m \<Rightarrow> str_includes m ''429'')
      \<or> status e = StatusNum 429 \<or> status e = StatusStr ''RESOURCE_EXHAUSTED'')"

definition rate_limit_fallback :: "CropContext \<Rightarrow> EcoAnalysis" where
  "rate_limit_fallback datasetContext =
     \<lparr>cropContext = datasetContext,
      weedDensity = Low,
      remediationAdvice =
        ''System is optimizing API usage (Rate Limit Reached). Analysis will resume momentarily.'',
      estimatedYieldLoss = 0,
      herbicideDosage = 0,
      detections = Some []\<rparr>"

definition failure_fallback :: "CropContext \<Rightarrow> EcoAnalysis" where
  "failure_fallback datasetContext =
     \<lparr>cropContext = datasetContext,
      weedDensity = Low,
      remediationAdvice = ''Connection unstable. Retrying inference...'',
      estimatedYieldLoss = 0,
      herbicideDosage = 0,
      detections = Some []\<rparr>"

text \<open>
  \<^verbatim>\<open>analyzeWeedImage(base64Image, datasetContext)\<close>. The image only travels to
  the remote call, whose outcome is the parameter \<open>outcome\<close>. The result is the
  settled promise: \<open>Inr\<close> when it resolves, \<open>Inl\<close> when it rejects.
\<close>

definition analyzeWeedImage :: "CropContext \<Rightarrow> api_outcome \<Rightarrow> js_error + EcoAnalysis" where
  "analyzeWeedImage datasetContext outcome =
     (case try_block outcome of
        Inr data \<Rightarrow> Inr data
      | Inl error \<Rightarrow>
          if is_rate_limit error then Inr (rate_limit_fallback datasetContext)
          else Inr (failure_fallback datasetContext))"

subsection \<open>App.tsx: device selection (getDevices, lines 44-69)\<close>

record MediaDeviceInfo =
  deviceId :: string
  kind :: string
  label :: string

text \<open>
  \<^verbatim>\<open>toLowerCase\<close> on the ASCII letters; every other character is left as it
  is (the Unicode case mapping of JavaScript is not modelled).
\<close>

definition toLowerChar :: "char \<Rightarrow> char" where
  "toLowerChar c =
     (case map_of (zip ''ABCDEFGHIJKLMNOPQRSTUVWXYZ'' ''abcdefghijklmnopqrstuvwxyz'') c of
        Some l \<Rightarrow> l
      | None \<Rightarrow> c)"

definition toLowerCase :: "string \<Rightarrow> string" where
  "toLowerCase s = map toLowerChar s"

text \<open>The predicate given to \<^verbatim>\<open>videoInputs.find\<close> on lines 59-63.\<close>

definition isMobileCam :: "MediaDeviceInfo \<Rightarrow> bool" where
  "isMobileCam d =
     (str_includes (toLowerCase (label d)) ''back''
      \<or> str_includes (toLowerCase (label d)) ''virtual''
      \<or> str_includes (toLowerCase (label d)) ''phone'')"

record device_state =
  videoDevices :: "MediaDeviceInfo list"
  selectedDeviceId :: string

text \<open>
  \<^verbatim>\<open>getDevices\<close>. \<open>enumerated\<close> is the result of the permission request and
  of \<^verbatim>\<open>enumerateDevices\<close>: \<open>None\<close> when either rejects (the \<^verbatim>\<open>catch\<close>
  logs and changes nothing). \<^verbatim>\<open>selectedDeviceId\<close> is the value the callback
  closed over, so both tests read the selection from before the call; the empty string
  is the falsy "nothing selected".
\<close>

definition getDevices :: "MediaDeviceInfo list option \<Rightarrow> device_state \<Rightarrow> device_state" where
  "getDevices enumerated st =
     (case enumerated of
        None \<Rightarrow> st
      | Some devices \<Rightarrow>
          let videoInputs = filter (\<lambda>d. kind d = ''videoinput'') devices;
              sel = selectedDeviceId st;
              st1 = st\<lparr>videoDevices := videoInputs\<rparr>;
              st2 = (if sel \<noteq> [] \<and> find (\<lambda>d. deviceId d = sel) videoInputs = None
                     then st1\<lparr>selectedDeviceId :=
                            (case videoInputs of [] \<Rightarrow> [] | d # _ \<Rightarrow> deviceId d)\<rparr>
                     else st1)
          in if sel = [] \<and> 0 < length videoInputs
             then st2\<lparr>selectedDeviceId :=
                    (case find isMobileCam videoInputs of
                       Some mobileCam \<Rightarrow> deviceId mobileCam
                     | None \<Rightarrow> deviceId (hd videoInputs))\<rparr>
             else st2)"

subsection \<open>App.tsx: reconciling a result (lines 209-238)\<close>

text \<open>
  An element of \<^verbatim>\<open>liveDetections\<close>: \<^verbatim>\<open>{id, x, y, w, h, label, conf}\<close>. The
  fields carry the prefix \<open>ld_\<close>, since \<open>id\<close>, \<open>x\<close>, \<open>y\<close> are taken.
\<close>

record LiveDetection =
  ld_id :: int
  ld_x :: js_number
  ld_y :: js_number
  ld_w :: js_number
  ld_h :: js_number
  ld_label :: string
  ld_conf :: real

text \<open>
  The callback of \<^verbatim>\<open>result.detections.map((d, i) => ...)\<close>, lines 224-236;
  \<open>None\<close> is its \<^verbatim>\<open>null\<close>. \<open>now\<close> is \<^verbatim>\<open>Date.now()\<close>.
\<close>

definition mapDetection :: "int \<Rightarrow> nat \<Rightarrow> DetectionResult \<Rightarrow> LiveDetection option" where
  "mapDetection now i d =
     (case bbox d of
        None \<Rightarrow> None
      | Some b \<Rightarrow>
          if length b < 4 then None
          else
            let ymin = b ! 0; xmin = b ! 1; ymax = b ! 2; xmax = b ! 3
            in Some \<lparr>ld_id = now + int i,
                     ld_x = js_mul xmin (Num 100),
                     ld_y = js_mul ymin (Num 100),
                     ld_w = js_mul (js_sub xmax xmin) (Num 100),
                     ld_h = js_mul (js_sub ymax ymin) (Num 100),
                     ld_label = weedType d,
                     ld_conf = confidence d\<rparr>)"

text \<open>\<^verbatim>\<open>.map(...).filter(Boolean)\<close>: the index counts every detection.\<close>

definition mappedDetections :: "int \<Rightarrow> DetectionResult list \<Rightarrow> LiveDetection list" where
  "mappedDetections now ds =
     List.map_filter (\<lambda>(i, d). mapDetection now i d) (enumerate 0 ds)"

text \<open>The body of the \<^verbatim>\<open>forEach\<close> on lines 214-219, on the pair (newSet, changed).\<close>

definition addWeedType :: "string set \<times> bool \<Rightarrow> DetectionResult \<Rightarrow> string set \<times> bool" where
  "addWeedType acc d =
     (case acc of (newSet, changed) \<Rightarrow>
        if weedType d \<notin> newSet then (insert (weedType d) newSet, True)
        else (newSet, changed))"

text \<open>
  The updater given to \<^verbatim>\<open>setDetectedWeedTypes\<close>, lines 211-221. It returns
  \<^verbatim>\<open>changed ? newSet : prev\<close>; the first component says whether the returned
  object is a new one. React compares the returned state with the previous one by
  identity and re-renders only for a new object.
\<close>

definition recordCategories :: "string set \<Rightarrow> DetectionResult list \<Rightarrow> bool \<times> string set" where
  "recordCategories prev ds =
     (case foldl addWeedType (prev, False) ds of (newSet, changed) \<Rightarrow>
        (changed, if changed then newSet else prev))"

subsection \<open>App.tsx: the filter (lines 549-554 and 595-596)\<close>

definition toggleWeedType :: "string \<Rightarrow> string set \<Rightarrow> string set" where
  "toggleWeedType t disabled = (if t \<in> disabled then disabled - {t} else insert t disabled)"

text \<open>\<^verbatim>\<open>liveDetections.filter(box => !disabledWeedTypes.has(box.label))\<close>\<close>

definition visibleRegions :: "string set \<Rightarrow> LiveDetection list \<Rightarrow> LiveDetection list" where
  "visibleRegions disabled boxes = filter (\<lambda>box. ld_label box \<notin> disabled) boxes"

subsection \<open>App.tsx: the live session (toggleCamera, lines 118-141; the effect, lines 175-257)\<close>

text \<open>
  The state of the live view.
  \<^item> \<open>stream\<close> .. \<open>disabledWeedTypes\<close> are the React state of the latest render
    (a stream is named by a number).
  \<^item> The inference effect has the dependency list \<^verbatim>\<open>[stream]\<close>: React runs its
    cleanup and its body again only in a render in which \<^verbatim>\<open>stream\<close> changed.
    \<open>run_id\<close> numbers the runs; the variable \<^verbatim>\<open>isMounted\<close> of run \<open>n\<close> is true
    exactly while \<open>n\<close> is the current run. \<open>cap_stream\<close> and
    \<open>cap_isLiveInferencing\<close> are the constants \<^verbatim>\<open>stream\<close> and
    \<^verbatim>\<open>isLiveInferencing\<close> of the render of that run, which the closure
    \<^verbatim>\<open>captureFrameAndAnalyze\<close> of that run reads. \<open>interval\<close> says that the
    run registered \<^verbatim>\<open>setInterval\<close> and has not cleared it.
  \<^item> \<open>inflight\<close> lists the calls of \<^verbatim>\<open>analyzeWeedImage\<close> that have not settled,
    each with the run of the effect it was made in; \<open>dispatchCount\<close> counts all
    calls made so far.
\<close>

record live_state =
  stream :: "nat option"
  liveDetections :: "LiveDetection list"
  isLiveInferencing :: bool
  detectedWeedTypes :: "string set"
  disabledWeedTypes :: "string set"
  run_id :: nat
  cap_stream :: "nat option"
  cap_isLiveInferencing :: bool
  interval :: bool
  inflight :: "nat list"
  dispatchCount :: nat

definition initial :: live_state where
  "initial =
     \<lparr>stream = None, liveDetections = [], isLiveInferencing = False,
      detectedWeedTypes = {}, disabledWeedTypes = {},
      run_id = 0, cap_stream = None, cap_isLiveInferencing = False, interval = False,
      inflight = [], dispatchCount = 0\<rparr>"

text \<open>
  A render in which \<^verbatim>\<open>stream\<close> changed: the cleanup of the previous run
  (\<^verbatim>\<open>isMounted = false; clearInterval(interval)\<close>), then the body of the effect,
  which closes over the values of this render and registers the interval
  \<^verbatim>\<open>if (stream)\<close>.
\<close>

definition inference_effect :: "live_state \<Rightarrow> live_state" where
  "inference_effect s =
     s\<lparr>run_id := Suc (run_id s),
       cap_stream := stream s,
       cap_isLiveInferencing := isLiveInferencing s,
       interval := (stream s \<noteq> None)\<rparr>"

text \<open>
  \<^verbatim>\<open>toggleCamera\<close>, with the render that follows it. With a stream: stop
  (the tracks are stopped, then the three setters of lines 122-124). Without:
  \<open>getUserMedia\<close> is the settled request, \<open>Some\<close> the new stream, \<open>None\<close> a
  rejection (an alert, no state change).
\<close>

definition toggleCamera :: "nat option \<Rightarrow> live_state \<Rightarrow> live_state" where
  "toggleCamera getUserMedia s =
     (case stream s of
        Some _ \<Rightarrow>
          inference_effect (s\<lparr>stream := None, liveDetections := [], detectedWeedTypes := {}\<rparr>)
      | None \<Rightarrow>
          (case getUserMedia of
             Some newStream \<Rightarrow> inference_effect (s\<lparr>stream := Some newStream\<rparr>)
           | None \<Rightarrow> s))"

text \<open>
  \<^verbatim>\<open>captureFrameAndAnalyze\<close> from its call by the timer up to the
  \<^verbatim>\<open>await\<close> on line 207. \<open>video\<close> is \<^verbatim>\<open>videoRef.current\<close>, given by its
  \<^verbatim>\<open>readyState\<close> (\<open>None\<close> when there is no element); \<open>ctx\<close> says that
  \<^verbatim>\<open>canvas.getContext('2d')\<close> is not null. The guard on line 180 reads the
  captured values. The run that owns the timer is the current one, so its
  \<^verbatim>\<open>isMounted\<close> is true in the \<^verbatim>\<open>finally\<close> of the two paths that end here.
\<close>

definition captureFrameAndAnalyze_call :: "nat option \<Rightarrow> bool \<Rightarrow> live_state \<Rightarrow> live_state" where
  "captureFrameAndAnalyze_call video ctx s =
     (if video = None \<or> cap_stream s = None \<or> cap_isLiveInferencing s then s
      else
        let s1 = s\<lparr>isLiveInferencing := True\<rparr>
        in if video \<noteq> Some 4 then s1\<lparr>isLiveInferencing := False\<rparr>
           else if \<not> ctx then s1\<lparr>isLiveInferencing := False\<rparr>
           else s1\<lparr>inflight := inflight s1 @ [run_id s1],
                   dispatchCount := Suc (dispatchCount s1)\<rparr>)"

text \<open>Lines 211-238: both setters, applied to the latest state.\<close>

definition reconcile :: "int \<Rightarrow> DetectionResult list \<Rightarrow> live_state \<Rightarrow> live_state" where
  "reconcile now ds s =
     s\<lparr>detectedWeedTypes := snd (recordCategories (detectedWeedTypes s) ds),
       liveDetections := mappedDetections now ds\<rparr>"

text \<open>
  \<^verbatim>\<open>captureFrameAndAnalyze\<close> from the \<^verbatim>\<open>await\<close> on: call number \<open>k\<close> of
  \<open>inflight\<close> settles with what \<^verbatim>\<open>analyzeWeedImage(data, 'Beet')\<close> makes of
  \<open>outcome\<close>. A rejection goes to the \<^verbatim>\<open>catch\<close>, which logs. Then the
  \<^verbatim>\<open>finally\<close>.
\<close>

definition captureFrameAndAnalyze_resume ::
    "nat \<Rightarrow> api_outcome \<Rightarrow> int \<Rightarrow> live_state \<Rightarrow> live_state" where
  "captureFrameAndAnalyze_resume k outcome now s =
     (let isMounted = (inflight s ! k = run_id s);
          s1 = s\<lparr>inflight := take k (inflight s) @ drop (Suc k) (inflight s)\<rparr>;
          s2 = (case analyzeWeedImage Beet outcome of
                  Inl err \<Rightarrow> s1
                | Inr result \<Rightarrow>
                    (case detections result of
                       Some ds \<Rightarrow> if isMounted then reconcile now ds s1 else s1
                     | None \<Rightarrow> s1))
      in if isMounted then s2\<lparr>isLiveInferencing := False\<rparr> else s2)"

text \<open>
  What can happen to the live view: the camera button; the timer firing (it calls the
  closure only while the interval is registered); an outstanding call settling; a
  click on a weed type of the filter menu. Switching the camera of a running session
  (\<^verbatim>\<open>handleDeviceChange\<close>) is not among the events.
\<close>

datatype event =
    ToggleCamera "nat option"
  | Tick "nat option" bool
  | Settle nat api_outcome int
  | ToggleWeedType string

fun step :: "event \<Rightarrow> live_state \<Rightarrow> live_state" where
  "step (ToggleCamera getUserMedia) s = toggleCamera getUserMedia s"
| "step (Tick video ctx) s =
     (if interval s then captureFrameAndAnalyze_call video ctx s else s)"
| "step (Settle k outcome now) s =
     (if k < length (inflight s) then captureFrameAndAnalyze_resume k outcome now s else s)"
| "step (ToggleWeedType t) s = s\<lparr>disabledWeedTypes := toggleWeedType t (disabledWeedTypes s)\<rparr>"

fun run :: "live_state \<Rightarrow> event list \<Rightarrow> live_state" where
  "run s [] = s"
| "run s (e # es) = run (step e s) es"

fun is_ToggleCamera :: "event \<Rightarrow> bool" where
  "is_ToggleCamera (ToggleCamera _) = True"
| "is_ToggleCamera _ = False"

subsection \<open>Invariants of the live session\<close>

text \<open>Every outstanding call was made in the current run of the effect or an earlier one.\<close>

definition inflight_ok :: "live_state \<Rightarrow> bool" where
  "inflight_ok s = (\<forall>n \<in> set (inflight s). n \<le> run_id s)"

text \<open>
  No timer is registered, every outstanding call belongs to a run that was cleaned up,
  and nothing is displayed or known.
\<close>

definition stopped :: "live_state \<Rightarrow> bool" where
  "stopped s =
     (\<not> interval s \<and> (\<forall>n \<in> set (inflight s). n < run_id s)
      \<and> liveDetections s = [] \<and> detectedWeedTypes s = {})"

subsection \<open>Sample values\<close>

text \<open>The JSON array \<^verbatim>\<open>[0.1, 0.2, 0.4, 0.6]\<close> as \<^verbatim>\<open>JSON.parse\<close> reads it.\<close>

definition sample_bbox :: "js_number list" where
  "sample_bbox = [to_double (1 / 10), to_double (2 / 10), to_double (4 / 10), to_double (6 / 10)]"

definition sample_raw :: "string \<Rightarrow> js_number list option \<Rightarrow> RawDetection" where
  "sample_raw name box =
     \<lparr>raw_weedType = name, raw_confidence = 9 / 10, raw_description = [],
      box_2d = box, raw_bbox = None\<rparr>"

definition sample_data :: "RawDetection list \<Rightarrow> ParsedData" where
  "sample_data ds =
     \<lparr>p_cropContext = Beet, p_weedDensity = Low, p_remediationAdvice = [],
      p_estimatedYieldLoss = 5, p_herbicideDosage = 2, p_detections = DetsArray ds\<rparr>"

definition http_429 :: js_error where
  "http_429 = \<lparr>message = Some ''got status: 429 Too Many Requests'', status = StatusNum 429\<rparr>"

text \<open>The region that the code derives from \<open>sample_bbox\<close>.\<close>

definition sample_box :: "int \<Rightarrow> string \<Rightarrow> LiveDetection" where
  "sample_box n name =
     \<lparr>ld_id = n, ld_x = Num 20, ld_y = Num 10, ld_w = Num 40, ld_h = Num (30 + 1 / 2 ^ 48),
      ld_label = name, ld_conf = 9 / 10\<rparr>"

section \<open>Theorems\<close>

subsection \<open>The rounding of doubles\<close>

text \<open>
  \<open>binary_exponent\<close> is the exponent; \<open>round_double\<close> returns a multiple of the
  spacing at that exponent with a significand of at most 53 bits, and it is off the
  exact value by at most half the spacing: a nearest double.
\<close>

lemma round_half_even_error: "\<bar>of_int (round_half_even m) - m\<bar> \<le> 1 / 2"
proof -
  define r where "r = m - of_int \<lfloor>m\<rfloor>"
  have r: "0 \<le> r" "r < 1" unfolding r_def by linarith+
  have m: "m = of_int \<lfloor>m\<rfloor> + r" unfolding r_def by simp
  consider "round_half_even m = \<lfloor>m\<rfloor>" "r \<le> 1 / 2"
    | "round_half_even m = \<lfloor>m\<rfloor> + 1" "1 / 2 \<le> r"
    unfolding round_half_even_def Let_def r_def [symmetric]
    by (cases "r < 1 / 2"; cases "1 / 2 < r"; cases "even \<lfloor>m\<rfloor>") auto
  then show ?thesis
  proof cases
    case 1
    have "of_int (round_half_even m) - m = - r" using 1(1) m by simp
    then show ?thesis using r 1(2) by simp
  next
    case 2
    have "of_int (round_half_even m) - m = 1 - r" using 2(1) m by simp
    then show ?thesis using r 2(2) by simp
  qed
qed

lemma quotient_of_abs_pos:
  assumes "x \<noteq> 0" and "quotient_of \<bar>x\<bar> = (p, q)"
  shows "0 < p" and "0 < q" and "\<bar>x\<bar> = of_int p / of_int q"
proof -
  show q: "0 < q" using assms(2) by (rule quotient_of_denom_pos)
  show eq: "\<bar>x\<bar> = of_int p / of_int q" using assms(2) by (rule quotient_of_div)
  have "0 < \<bar>x\<bar>" using assms(1) by simp
  with eq q show "0 < p"
    by (simp add: zero_less_divide_iff)
qed

lemma bitlen_powi_bounds:
  assumes "0 < (n::int)"
  shows "(2::rat) powi (bitlen n - 1) \<le> of_int n" and "of_int n < (2::rat) powi (bitlen n)"
proof -
  from bitlen_bounds [OF assms]
  have lo: "2 ^ nat (bitlen n - 1) \<le> n" and hi: "n < 2 ^ nat (bitlen n)" by simp_all
  have b1: "1 \<le> bitlen n" using assms
    by (metis bitlen_eq_zero_iff bitlen_nonneg int_one_le_iff_zero_less le_less not_less)
  have "(of_int (2 ^ nat (bitlen n - 1)) :: rat) \<le> of_int n"
    using lo by (simp only: of_int_le_iff)
  then show "(2::rat) powi (bitlen n - 1) \<le> of_int n"
    using b1 by (simp add: power_int_def)
  have "(of_int n :: rat) < of_int (2 ^ nat (bitlen n))"
    using hi by (simp only: of_int_less_iff)
  then show "of_int n < (2::rat) powi (bitlen n)"
    using b1 by (simp add: power_int_def)
qed

lemma binary_exponent_bounds:
  assumes "x \<noteq> 0"
  shows "2 powi (binary_exponent x) \<le> \<bar>x\<bar>" and "\<bar>x\<bar> < 2 powi (binary_exponent x + 1)"
proof -
  obtain p q where pq: "quotient_of \<bar>x\<bar> = (p, q)" by (cases "quotient_of \<bar>x\<bar>")
  from quotient_of_abs_pos [OF assms pq]
  have p: "0 < p" and q: "0 < q" and x: "\<bar>x\<bar> = of_int p / of_int q" by simp_all
  let ?d = "bitlen p - bitlen q"
  note bp = bitlen_powi_bounds [OF p] and bq = bitlen_powi_bounds [OF q]
  have qpos: "(0::rat) < of_int q" using q by simp
  have lower: "(2::rat) powi (?d - 1) \<le> \<bar>x\<bar>"
  proof -
    have "(2::rat) powi (?d - 1) = 2 powi (bitlen p - 1) / 2 powi (bitlen q)"
      by (simp add: power_int_diff)
    also have "\<dots> \<le> of_int p / 2 powi (bitlen q)"
      using bp(1) by (simp add: divide_right_mono)
    also have "\<dots> \<le> of_int p / of_int q"
      using bq(2) p qpos by (simp add: frac_le)
    finally show ?thesis using x by simp
  qed
  have upper: "\<bar>x\<bar> < (2::rat) powi (?d + 1)"
  proof -
    have pw: "(0::rat) < 2 powi (bitlen q - 1)" by simp
    have "of_int p / of_int q < (2::rat) powi (bitlen p) / of_int q"
      using bp(2) qpos by (simp add: divide_strict_right_mono)
    also have "\<dots> \<le> 2 powi (bitlen p) / 2 powi (bitlen q - 1)"
      using bq(1) pw by (simp add: frac_le)
    also have "\<dots> = 2 powi (?d + 1)"
      by (simp add: power_int_diff power_int_add algebra_simps)
    finally show ?thesis using x by simp
  qed
  show "2 powi (binary_exponent x) \<le> \<bar>x\<bar>"
    using lower by (simp add: binary_exponent_def pq Let_def)
  show "\<bar>x\<bar> < 2 powi (binary_exponent x + 1)"
    using upper by (auto simp: binary_exponent_def pq Let_def not_le)
qed

lemma round_double_error:
  "\<bar>round_double x - x\<bar> \<le> 2 powi (max (binary_exponent x) (- 1022) - 53)"
proof (cases "x = 0")
  case True
  then show ?thesis by (simp add: round_double_def)
next
  case False
  let ?e = "max (binary_exponent x) (- 1022)"
  let ?u = "(2::rat) powi (?e - 52)"
  have u: "0 < ?u" by simp
  have "round_double x - x = (of_int (round_half_even (x / ?u)) - x / ?u) * ?u"
    using False u by (simp add: round_double_def Let_def left_diff_distrib)
  then have "\<bar>round_double x - x\<bar> = \<bar>of_int (round_half_even (x / ?u)) - x / ?u\<bar> * ?u"
    using u by (simp only: abs_mult abs_of_pos)
  also have "\<dots> \<le> (1 / 2) * ?u"
    using round_half_even_error [of "x / ?u"] u by (simp add: mult_right_mono)
  also have "\<dots> = 2 powi (?e - 53)"
    by (simp add: power_int_diff)
  finally show ?thesis .
qed


lemma abs_le_diff_plus: "\<bar>a :: rat\<bar> \<le> \<bar>a - b\<bar> + \<bar>b\<bar>"
  by linarith

lemma round_double_significand:
  assumes "x \<noteq> 0"
  shows "\<exists>n. round_double x = of_int n * 2 powi (max (binary_exponent x) (- 1022) - 52)
           \<and> \<bar>n\<bar> \<le> 2 ^ 53"
proof -
  let ?e = "max (binary_exponent x) (- 1022)"
  let ?u = "(2::rat) powi (?e - 52)"
  let ?n = "round_half_even (x / ?u)"
  have u: "0 < ?u" by simp
  have "\<bar>x\<bar> < 2 powi (binary_exponent x + 1)"
    using binary_exponent_bounds(2) [OF assms] .
  also have "\<dots> \<le> 2 powi (?e + 1)"
    by (rule power_int_increasing) simp_all
  also have "\<dots> = 2 ^ 53 * ?u"
    by (simp add: power_int_diff power_int_add)
  finally have "\<bar>x\<bar> / ?u < 2 ^ 53"
    using u by (simp add: pos_divide_less_eq)
  then have m: "\<bar>x / ?u\<bar> < 2 ^ 53"
    using u by (simp add: abs_divide)
  have "\<bar>of_int ?n\<bar> \<le> \<bar>of_int ?n - x / ?u\<bar> + \<bar>x / ?u\<bar>"
    by (rule abs_le_diff_plus)
  also have "\<dots> < 1 / 2 + 2 ^ 53"
    using round_half_even_error [of "x / ?u"] m by linarith
  finally have "\<bar>(of_int ?n :: rat)\<bar> < of_int (2 ^ 53 + 1)"
    by simp
  then have "\<bar>?n\<bar> < 2 ^ 53 + 1"
    by (simp only: of_int_abs [symmetric] of_int_less_iff)
  then have "\<bar>?n\<bar> \<le> 2 ^ 53" by simp
  moreover have "round_double x = of_int ?n * ?u"
    using assms by (simp add: round_double_def Let_def)
  ultimately show ?thesis by blast
qed

lemmas service_defs =
  analyzeWeedImage_def as_EcoAnalysis_def normalize_detection_def is_rate_limit_def
  rate_limit_fallback_def failure_fallback_def sample_raw_def sample_data_def http_429_def

lemma sample_bbox_length: "length sample_bbox = 4"
  by (simp add: sample_bbox_def)

lemma sample_bbox_doubles:
  "sample_bbox =
     [Num (3602879701896397 / 2 ^ 55), Num (3602879701896397 / 2 ^ 54),
      Num (3602879701896397 / 2 ^ 53), Num (5404319552844595 / 2 ^ 53)]"
  by code_simp

lemma sample_bbox_geometry:
  "js_mul (sample_bbox ! 1) (Num 100) = Num 20"
  "js_mul (sample_bbox ! 0) (Num 100) = Num 10"
  "js_mul (js_sub (sample_bbox ! 3) (sample_bbox ! 1)) (Num 100) = Num 40"
  "js_mul (js_sub (sample_bbox ! 2) (sample_bbox ! 0)) (Num 100) = Num (30 + 1 / 2 ^ 48)"
  by code_simp+

lemma mapDetection_sample_bbox:
  assumes "bbox d = Some sample_bbox"
  shows "mapDetection now i d =
           Some \<lparr>ld_id = now + int i, ld_x = Num 20, ld_y = Num 10, ld_w = Num 40,
                 ld_h = Num (30 + 1 / 2 ^ 48), ld_label = weedType d, ld_conf = confidence d\<rparr>"
  unfolding mapDetection_def assms Let_def option.case sample_bbox_geometry
  by (simp add: sample_bbox_length)

lemmas reconcile_defs =
  reconcile_def mappedDetections_def mapDetection_sample_bbox List.map_filter_def enumerate_eq_zip
  recordCategories_def addWeedType_def sample_box_def

lemmas live_defs =
  initial_def toggleCamera_def inference_effect_def captureFrameAndAnalyze_call_def
  captureFrameAndAnalyze_resume_def toggleWeedType_def

subsection \<open>The analyzer wrapper\<close>

text \<open>
  C9. Whenever the \<^verbatim>\<open>try\<close> block of \<^verbatim>\<open>analyzeWeedImage\<close> throws (a
  rejected request, a rate-limit signal, a response without text, unparseable text, a
  malformed \<^verbatim>\<open>detections\<close> member), the promise resolves, and its value has
  \<^verbatim>\<open>detections = []\<close>, \<^verbatim>\<open>estimatedYieldLoss = 0\<close> and
  \<^verbatim>\<open>herbicideDosage = 0\<close>.
\<close>

theorem analyzeWeedImage_fallback:
  assumes "try_block outcome = Inl e"
  shows "\<exists>r. analyzeWeedImage ctx outcome = Inr r \<and> detections r = Some []
           \<and> estimatedYieldLoss r = 0 \<and> herbicideDosage r = 0 \<and> cropContext r = ctx"
  using assms
  by (simp add: analyzeWeedImage_def rate_limit_fallback_def failure_fallback_def)

text \<open>The witness of C9: a request rejected with status 429 takes the rate-limit branch.\<close>

theorem analyzeWeedImage_fallback_witness:
  "try_block (Rejected \<lparr>message = None, status = StatusNum 429\<rparr>)
     = Inl \<lparr>message = None, status = StatusNum 429\<rparr>
   \<and> is_rate_limit \<lparr>message = None, status = StatusNum 429\<rparr>
   \<and> (\<exists>r. analyzeWeedImage Beet (Rejected \<lparr>message = None, status = StatusNum 429\<rparr>) = Inr r
         \<and> detections r = Some [] \<and> estimatedYieldLoss r = 0 \<and> herbicideDosage r = 0
         \<and> cropContext r = Beet)"
  using analyzeWeedImage_fallback
    [of "Rejected \<lparr>message = None, status = StatusNum 429\<rparr>"
        "\<lparr>message = None, status = StatusNum 429\<rparr>" Beet]
  by (simp add: is_rate_limit_def)

subsection \<open>Geometry\<close>

lemma map_filter_member:
  "x \<in> set xs \<Longrightarrow> f x = Some y \<Longrightarrow> y \<in> set (List.map_filter f xs)"
  by (force simp: List.map_filter_def image_iff)

lemma mappedDetections_member:
  assumes "i < length ds" and "mapDetection now i (ds ! i) = Some r"
  shows "r \<in> set (mappedDetections now ds)"
proof -
  have "(i, ds ! i) \<in> set (enumerate 0 ds)"
    using assms(1) by (simp add: in_set_enumerate_eq)
  then show ?thesis
    unfolding mappedDetections_def
    by (rule map_filter_member) (simp add: assms(2))
qed

text \<open>
  C4, as the code has it. A detection whose bounding box starts with (ymin, xmin, ymax,
  xmax) is mapped to the region with left = xmin * 100, top = ymin * 100,
  width = (xmax - xmin) * 100 and height = (ymax - ymin) * 100, where \<^verbatim>\<open>*\<close> and
  \<^verbatim>\<open>-\<close> are the operations on doubles, each rounding its exact result; and that
  region is among the regions of the cycle.
\<close>

theorem geometry_mapping:
  assumes "i < length ds" and "bbox (ds ! i) = Some (ymin # xmin # ymax # xmax # rest)"
  shows "mapDetection now i (ds ! i) =
           Some \<lparr>ld_id = now + int i,
                 ld_x = js_mul xmin (Num 100),
                 ld_y = js_mul ymin (Num 100),
                 ld_w = js_mul (js_sub xmax xmin) (Num 100),
                 ld_h = js_mul (js_sub ymax ymin) (Num 100),
                 ld_label = weedType (ds ! i), ld_conf = confidence (ds ! i)\<rparr>
       \<and> \<lparr>ld_id = now + int i,
          ld_x = js_mul xmin (Num 100),
          ld_y = js_mul ymin (Num 100),
          ld_w = js_mul (js_sub xmax xmin) (Num 100),
          ld_h = js_mul (js_sub ymax ymin) (Num 100),
          ld_label = weedType (ds ! i), ld_conf = confidence (ds ! i)\<rparr>
           \<in> set (mappedDetections now ds)"
proof -
  have m: "mapDetection now i (ds ! i) =
           Some \<lparr>ld_id = now + int i,
                 ld_x = js_mul xmin (Num 100),
                 ld_y = js_mul ymin (Num 100),
                 ld_w = js_mul (js_sub xmax xmin) (Num 100),
                 ld_h = js_mul (js_sub ymax ymin) (Num 100),
                 ld_label = weedType (ds ! i), ld_conf = confidence (ds ! i)\<rparr>"
    using assms(2) by (simp add: mapDetection_def)
  from m mappedDetections_member [OF assms(1) m] show ?thesis by simp
qed

text \<open>
  The witness of C4: the box [0.1, 0.2, 0.4, 0.6] gives left 20, top 10, width 40 and
  the height \<open>30 + 1 / 2 ^ 48\<close>, which JavaScript prints as 30.000000000000004.
\<close>

theorem geometry_mapping_witness:
  "bbox ([normalize_detection (sample_raw ''Fat Hen'' (Some sample_bbox))] ! 0)
     = Some [sample_bbox ! 0, sample_bbox ! 1, sample_bbox ! 2, sample_bbox ! 3]
   \<and> mapDetection 1000 0 (normalize_detection (sample_raw ''Fat Hen'' (Some sample_bbox)))
     = Some \<lparr>ld_id = 1000, ld_x = Num 20, ld_y = Num 10, ld_w = Num 40,
             ld_h = Num (30 + 1 / 2 ^ 48), ld_label = ''Fat Hen'', ld_conf = 9 / 10\<rparr>
   \<and> \<lparr>ld_id = 1000, ld_x = Num 20, ld_y = Num 10, ld_w = Num 40,
       ld_h = Num (30 + 1 / 2 ^ 48), ld_label = ''Fat Hen'', ld_conf = 9 / 10\<rparr>
       \<in> set (mappedDetections 1000
                [normalize_detection (sample_raw ''Fat Hen'' (Some sample_bbox))])"
proof -
  let ?ds = "[normalize_detection (sample_raw ''Fat Hen'' (Some sample_bbox))]"
  have i: "0 < length ?ds" by simp
  have b: "bbox (?ds ! 0) = Some [sample_bbox ! 0, sample_bbox ! 1, sample_bbox ! 2, sample_bbox ! 3]"
    by (simp add: normalize_detection_def sample_raw_def sample_bbox_def)
  have d: "?ds ! 0 = normalize_detection (sample_raw ''Fat Hen'' (Some sample_bbox))"
    by simp
  have w: "weedType (normalize_detection (sample_raw ''Fat Hen'' (Some sample_bbox))) = ''Fat Hen''"
    and c: "confidence (normalize_detection (sample_raw ''Fat Hen'' (Some sample_bbox))) = 9 / 10"
    by (simp_all add: normalize_detection_def sample_raw_def)
  from geometry_mapping [OF i b, of 1000] b show ?thesis
    unfolding d sample_bbox_geometry w c by simp
qed

text \<open>
  C4 as the specification words it fails on its own instance: for the box
  [0.1, 0.2, 0.4, 0.6] the height is not 30. The doubles nearest to 0.4 and 0.1 differ
  by the double 0.30000000000000004, and 100 times that rounds to \<open>30 + 1 / 2 ^ 48\<close>.
\<close>

theorem geometry_height_not_30:
  "sample_bbox = [to_double (1 / 10), to_double (2 / 10), to_double (4 / 10), to_double (6 / 10)]
   \<and> mapDetection 1000 0 (normalize_detection (sample_raw ''Fat Hen'' (Some sample_bbox)))
     = Some \<lparr>ld_id = 1000, ld_x = Num 20, ld_y = Num 10, ld_w = Num 40,
             ld_h = Num (30 + 1 / 2 ^ 48), ld_label = ''Fat Hen'', ld_conf = 9 / 10\<rparr>
   \<and> mapDetection 1000 0 (normalize_detection (sample_raw ''Fat Hen'' (Some sample_bbox)))
     \<noteq> Some \<lparr>ld_id = 1000, ld_x = Num 20, ld_y = Num 10, ld_w = Num 40,
             ld_h = Num 30, ld_label = ''Fat Hen'', ld_conf = 9 / 10\<rparr>"
proof -
  have b: "bbox (normalize_detection (sample_raw ''Fat Hen'' (Some sample_bbox))) = Some sample_bbox"
    by (simp add: normalize_detection_def sample_raw_def)
  have s: "sample_bbox = [to_double (1 / 10), to_double (2 / 10), to_double (4 / 10), to_double (6 / 10)]"
    by (rule sample_bbox_def)
  from mapDetection_sample_bbox [OF b, of 1000 0] s show ?thesis
    by (simp add: normalize_detection_def sample_raw_def)
qed

subsection \<open>Known categories\<close>

lemma addWeedType_pair:
  "addWeedType (S, c) d = (insert (weedType d) S, c \<or> weedType d \<notin> S)"
  by (simp add: addWeedType_def insert_absorb)

lemma foldl_addWeedType:
  "foldl addWeedType (S, c) ds = (S \<union> weedType ` set ds, c \<or> \<not> weedType ` set ds \<subseteq> S)"
proof (induction ds arbitrary: S c)
  case Nil
  show ?case by simp
next
  case (Cons d ds)
  show ?case
    by (auto simp: addWeedType_pair Cons.IH)
qed

lemma recordCategories_eq:
  "recordCategories K ds = (\<not> weedType ` set ds \<subseteq> K, K \<union> weedType ` set ds)"
  by (auto simp: recordCategories_def foldl_addWeedType)

lemma recordCategories_Nil: "recordCategories K [] = (False, K)"
  by (simp add: recordCategories_def)

text \<open>
  C6. When every category of the batch is already known, the updater returns the
  previous set itself (no new object, so no re-render); and after a batch has been
  recorded once, recording it again returns the set unchanged.
\<close>

theorem recordCategories_known_noop:
  "((\<forall>d \<in> set ds. weedType d \<in> K) \<longrightarrow> recordCategories K ds = (False, K))
   \<and> recordCategories (snd (recordCategories K ds)) ds = (False, snd (recordCategories K ds))"
  by (auto simp: recordCategories_eq)

text \<open>
  The witness of C6: a known category changes nothing; an unknown one is added by the
  first call and not by the second.
\<close>

theorem recordCategories_known_noop_witness:
  "weedType (normalize_detection (sample_raw ''Fat Hen'' None)) \<in> {''Fat Hen'', ''Redshank''}
   \<and> recordCategories {''Fat Hen'', ''Redshank''} [normalize_detection (sample_raw ''Fat Hen'' None)]
       = (False, {''Fat Hen'', ''Redshank''})
   \<and> recordCategories {} [normalize_detection (sample_raw ''Fat Hen'' None)] = (True, {''Fat Hen''})
   \<and> recordCategories (snd (recordCategories {} [normalize_detection (sample_raw ''Fat Hen'' None)]))
        [normalize_detection (sample_raw ''Fat Hen'' None)] = (False, {''Fat Hen''})"
proof -
  have known: "\<forall>d \<in> set [normalize_detection (sample_raw ''Fat Hen'' None)].
      weedType d \<in> {''Fat Hen'', ''Redshank''}"
    by (simp add: normalize_detection_def sample_raw_def)
  have first: "recordCategories {} [normalize_detection (sample_raw ''Fat Hen'' None)]
      = (True, {''Fat Hen''})"
    by (simp add: recordCategories_def addWeedType_def normalize_detection_def sample_raw_def)
  from recordCategories_known_noop
         [of "[normalize_detection (sample_raw ''Fat Hen'' None)]" "{''Fat Hen'', ''Redshank''}"]
       recordCategories_known_noop [of "[normalize_detection (sample_raw ''Fat Hen'' None)]" "{}"]
       known first
  show ?thesis by (simp add: normalize_detection_def sample_raw_def)
qed

subsection \<open>The overlay filter\<close>

text \<open>
  C7. The visible regions are the regions whose label is not hidden, in the order of
  the list: a subsequence of the list with no hidden label, and the largest one (every
  subsequence without hidden labels is a subsequence of it).
\<close>

theorem visibleRegions_filter:
  "visibleRegions H L = filter (\<lambda>b. ld_label b \<notin> H) L
   \<and> subseq (visibleRegions H L) L
   \<and> (\<forall>b \<in> set (visibleRegions H L). ld_label b \<notin> H)
   \<and> (\<forall>zs. subseq zs L \<and> (\<forall>z \<in> set zs. ld_label z \<notin> H) \<longrightarrow> subseq zs (visibleRegions H L))"
proof -
  have "subseq zs (visibleRegions H L)"
    if "subseq zs L" and "\<forall>z \<in> set zs. ld_label z \<notin> H" for zs
  proof -
    from that(1) have "subseq (filter (\<lambda>b. ld_label b \<notin> H) zs) (filter (\<lambda>b. ld_label b \<notin> H) L)"
      by simp
    moreover from that(2) have "filter (\<lambda>b. ld_label b \<notin> H) zs = zs"
      by (simp add: filter_id_conv)
    ultimately show ?thesis by (simp add: visibleRegions_def)
  qed
  then show ?thesis by (auto simp: visibleRegions_def)
qed

text \<open>
  The witness of C7: with "Redshank" hidden, of one "Fat Hen" region and one "Redshank"
  region only the first is visible.
\<close>

theorem visibleRegions_filter_witness:
  "visibleRegions {''Redshank''} [sample_box 1 ''Fat Hen'', sample_box 2 ''Redshank'']
     = [sample_box 1 ''Fat Hen'']
   \<and> subseq [sample_box 1 ''Fat Hen''] [sample_box 1 ''Fat Hen'', sample_box 2 ''Redshank'']"
  using visibleRegions_filter [of "{''Redshank''}" "[sample_box 1 ''Fat Hen'', sample_box 2 ''Redshank'']"]
  by (simp add: sample_box_def)

subsection \<open>Device selection\<close>

text \<open>
  C8, as the code has it. With nothing selected and at least one video input, the new
  selection is the first video input, in list order, whose lower-cased label contains
  "back", "virtual" or "phone" (the three words have no rank among them); when no
  label contains any of them, it is the first video input.
\<close>

theorem getDevices_selection:
  assumes "selectedDeviceId st = []"
    and "videoInputs = filter (\<lambda>d. kind d = ''videoinput'') devices"
    and "videoInputs \<noteq> []"
  shows "videoDevices (getDevices (Some devices) st) = videoInputs
       \<and> ((\<exists>i < length videoInputs.
              isMobileCam (videoInputs ! i) \<and> (\<forall>j < i. \<not> isMobileCam (videoInputs ! j))
              \<and> selectedDeviceId (getDevices (Some devices) st) = deviceId (videoInputs ! i))
          \<or> ((\<forall>d \<in> set videoInputs. \<not> isMobileCam d)
              \<and> selectedDeviceId (getDevices (Some devices) st) = deviceId (videoInputs ! 0)))"
proof (cases "find isMobileCam videoInputs")
  case None
  then have "\<forall>d \<in> set videoInputs. \<not> isMobileCam d"
    by (simp add: find_None_iff)
  moreover have "hd videoInputs = videoInputs ! 0"
    using assms(3) by (simp add: hd_conv_nth)
  ultimately show ?thesis
    using None assms by (simp add: getDevices_def Let_def)
next
  case (Some m)
  then obtain i where "i < length videoInputs" "isMobileCam (videoInputs ! i)"
    "m = videoInputs ! i" "\<forall>j < i. \<not> isMobileCam (videoInputs ! j)"
    by (auto simp: find_Some_iff)
  moreover have "selectedDeviceId (getDevices (Some devices) st) = deviceId m"
    using Some assms by (simp add: getDevices_def Let_def)
  moreover have "videoDevices (getDevices (Some devices) st) = videoInputs"
    using assms by (simp add: getDevices_def Let_def)
  ultimately show ?thesis by blast
qed

text \<open>
  The witness of C8: of a microphone, a webcam and a phone camera, the phone camera is
  selected.
\<close>

theorem getDevices_selection_witness:
  "selectedDeviceId \<lparr>videoDevices = [], selectedDeviceId = []\<rparr> = []
   \<and> filter (\<lambda>d. kind d = ''videoinput'')
        [\<lparr>deviceId = ''m'', kind = ''audioinput'', label = ''Phone Microphone''\<rparr>,
         \<lparr>deviceId = ''w'', kind = ''videoinput'', label = ''Integrated Webcam''\<rparr>,
         \<lparr>deviceId = ''p'', kind = ''videoinput'', label = ''Phone Link''\<rparr>]
       = [\<lparr>deviceId = ''w'', kind = ''videoinput'', label = ''Integrated Webcam''\<rparr>,
          \<lparr>deviceId = ''p'', kind = ''videoinput'', label = ''Phone Link''\<rparr>]
   \<and> \<not> isMobileCam \<lparr>deviceId = ''w'', kind = ''videoinput'', label = ''Integrated Webcam''\<rparr>
   \<and> isMobileCam \<lparr>deviceId = ''p'', kind = ''videoinput'', label = ''Phone Link''\<rparr>
   \<and> selectedDeviceId
        (getDevices
           (Some [\<lparr>deviceId = ''m'', kind = ''audioinput'', label = ''Phone Microphone''\<rparr>,
                  \<lparr>deviceId = ''w'', kind = ''videoinput'', label = ''Integrated Webcam''\<rparr>,
                  \<lparr>deviceId = ''p'', kind = ''videoinput'', label = ''Phone Link''\<rparr>])
           \<lparr>videoDevices = [], selectedDeviceId = []\<rparr>) = ''p''"
proof -
  let ?devices = "[\<lparr>deviceId = ''m'', kind = ''audioinput'', label = ''Phone Microphone''\<rparr>,
         \<lparr>deviceId = ''w'', kind = ''videoinput'', label = ''Integrated Webcam''\<rparr>,
         \<lparr>deviceId = ''p'', kind = ''videoinput'', label = ''Phone Link''\<rparr>]"
  let ?inputs = "[\<lparr>deviceId = ''w'', kind = ''videoinput'', label = ''Integrated Webcam''\<rparr>,
          \<lparr>deviceId = ''p'', kind = ''videoinput'', label = ''Phone Link''\<rparr>]"
  let ?sel = "selectedDeviceId (getDevices (Some ?devices) \<lparr>videoDevices = [], selectedDeviceId = []\<rparr>)"
  have sel: "selectedDeviceId \<lparr>videoDevices = [], selectedDeviceId = []\<rparr> = []" by simp
  have flt: "?inputs = filter (\<lambda>d. kind d = ''videoinput'') ?devices" by simp
  have ne: "?inputs \<noteq> []" by simp
  have w: "\<not> isMobileCam (?inputs ! 0)" and p: "isMobileCam (?inputs ! 1)"
    by (simp_all add: isMobileCam_def toLowerCase_def toLowerChar_def)
  from getDevices_selection [OF sel flt ne]
  have "(\<exists>i < length ?inputs. isMobileCam (?inputs ! i) \<and> (\<forall>j < i. \<not> isMobileCam (?inputs ! j))
              \<and> ?sel = deviceId (?inputs ! i))
          \<or> ((\<forall>d \<in> set ?inputs. \<not> isMobileCam d) \<and> ?sel = deviceId (?inputs ! 0))"
    by blast
  then have "?sel = deviceId (?inputs ! 1)"
  proof
    assume "\<exists>i < length ?inputs. isMobileCam (?inputs ! i) \<and> (\<forall>j < i. \<not> isMobileCam (?inputs ! j))
              \<and> ?sel = deviceId (?inputs ! i)"
    then obtain i where len: "i < length ?inputs" and m: "isMobileCam (?inputs ! i)"
      and r: "?sel = deviceId (?inputs ! i)"
      by blast
    from len have "i = 0 \<or> i = 1" by auto
    with m w have "i = 1" by blast
    with r show ?thesis by blast
  next
    assume "(\<forall>d \<in> set ?inputs. \<not> isMobileCam d) \<and> ?sel = deviceId (?inputs ! 0)"
    then have "\<not> isMobileCam (?inputs ! 1)" by simp
    with p show ?thesis by blast
  qed
  then have "?sel = ''p''" by simp
  with sel flt w p show ?thesis by simp
qed

text \<open>
  C8 as the specification words it fails: a "virtual" camera listed before a "back"
  camera is the one selected.
\<close>

theorem earlier_virtual_beats_back:
  "str_includes (toLowerCase ''Back Camera'') ''back''
   \<and> \<not> str_includes (toLowerCase ''OBS Virtual Camera'') ''back''
   \<and> selectedDeviceId
       (getDevices
          (Some [\<lparr>deviceId = ''v'', kind = ''videoinput'', label = ''OBS Virtual Camera''\<rparr>,
                 \<lparr>deviceId = ''b'', kind = ''videoinput'', label = ''Back Camera''\<rparr>])
          \<lparr>videoDevices = [], selectedDeviceId = []\<rparr>) = ''v''
   \<and> selectedDeviceId
       (getDevices
          (Some [\<lparr>deviceId = ''v'', kind = ''videoinput'', label = ''OBS Virtual Camera''\<rparr>,
                 \<lparr>deviceId = ''b'', kind = ''videoinput'', label = ''Back Camera''\<rparr>])
          \<lparr>videoDevices = [], selectedDeviceId = []\<rparr>) \<noteq> ''b''"
  by (simp add: getDevices_def isMobileCam_def toLowerCase_def toLowerChar_def)

subsection \<open>Reconciliation\<close>

lemma mapDetection_None_iff:
  "mapDetection now i d = None \<longleftrightarrow> \<not> (\<exists>b. bbox d = Some b \<and> 4 \<le> length b)"
  by (cases "bbox d") (auto simp: mapDetection_def Let_def)

lemma mapDetection_Some_label:
  "mapDetection now i d = Some r \<Longrightarrow> ld_label r = weedType d"
  by (cases "bbox d") (auto simp: mapDetection_def Let_def split: if_splits)

lemma mapped_labels_enum:
  "map ld_label (List.map_filter (\<lambda>(i, d). mapDetection now i d) (enumerate n ds))
     = map weedType (filter (\<lambda>d. \<exists>b. bbox d = Some b \<and> 4 \<le> length b) ds)"
proof (induction ds arbitrary: n)
  case Nil
  show ?case by simp
next
  case (Cons d ds)
  show ?case
  proof (cases "mapDetection now n d")
    case None
    then have "\<not> (\<exists>b. bbox d = Some b \<and> 4 \<le> length b)"
      using mapDetection_None_iff [of now n d] by simp
    then show ?thesis
      using Cons.IH [of "Suc n"] None by simp
  next
    case (Some r)
    then have "\<exists>b. bbox d = Some b \<and> 4 \<le> length b"
      using mapDetection_None_iff [of now n d] by simp
    then show ?thesis
      using Cons.IH [of "Suc n"] Some
      by (simp add: mapDetection_Some_label)
  qed
qed

lemma mappedDetections_labels:
  "map ld_label (mappedDetections now ds)
     = map weedType (filter (\<lambda>d. \<exists>b. bbox d = Some b \<and> 4 \<le> length b) ds)"
  by (simp add: mappedDetections_def mapped_labels_enum)

lemma mappedDetections_Nil: "mappedDetections now [] = []"
  by (simp add: mappedDetections_def)

text \<open>
  C10. When a call of the current run of the effect settles with a result that has a
  detection list, the category of every detection of the list is added to the known
  categories, with or without a bounding box; the displayed regions are, in order, those
  of the detections whose bounding box has at least 4 elements; and every displayed
  label is a known category.
\<close>

theorem live_reconciliation:
  assumes "k < length (inflight s)" and "inflight s ! k = run_id s"
    and "analyzeWeedImage Beet outcome = Inr result" and "detections result = Some ds"
  shows "detectedWeedTypes (step (Settle k outcome now) s) = detectedWeedTypes s \<union> weedType ` set ds
       \<and> map ld_label (liveDetections (step (Settle k outcome now) s))
           = map weedType (filter (\<lambda>d. \<exists>b. bbox d = Some b \<and> 4 \<le> length b) ds)
       \<and> (\<forall>r \<in> set (liveDetections (step (Settle k outcome now) s)).
             ld_label r \<in> detectedWeedTypes (step (Settle k outcome now) s))"
proof -
  have known: "detectedWeedTypes (step (Settle k outcome now) s)
                 = detectedWeedTypes s \<union> weedType ` set ds"
    and shown: "liveDetections (step (Settle k outcome now) s) = mappedDetections now ds"
    using assms
    by (simp_all add: captureFrameAndAnalyze_resume_def reconcile_def recordCategories_eq)
  have labels: "map ld_label (liveDetections (step (Settle k outcome now) s))
           = map weedType (filter (\<lambda>d. \<exists>b. bbox d = Some b \<and> 4 \<le> length b) ds)"
    using shown by (simp add: mappedDetections_labels)
  have "ld_label r \<in> detectedWeedTypes (step (Settle k outcome now) s)"
    if "r \<in> set (liveDetections (step (Settle k outcome now) s))" for r
  proof -
    from that have "ld_label r \<in> set (map ld_label (liveDetections (step (Settle k outcome now) s)))"
      by simp
    then have "ld_label r \<in> weedType ` set ds"
      unfolding labels by auto
    then show ?thesis using known by simp
  qed
  with known labels show ?thesis by blast
qed

text \<open>
  The witness of C10: of three detections, one with a full box, one with a box of two
  numbers and one without a box, all three categories become known and only the first
  is displayed.
\<close>

theorem live_reconciliation_witness:
  "inflight (run initial [ToggleCamera (Some 1), Tick (Some 4) True]) = [1]
   \<and> run_id (run initial [ToggleCamera (Some 1), Tick (Some 4) True]) = 1
   \<and> detectedWeedTypes
       (step (Settle 0 (Parsed (sample_data
                [sample_raw ''Fat Hen'' (Some sample_bbox),
                 sample_raw ''Redshank'' (Some (take 2 sample_bbox)),
                 sample_raw ''Knotgrass'' None])) 1000)
          (run initial [ToggleCamera (Some 1), Tick (Some 4) True]))
       = {''Fat Hen'', ''Redshank'', ''Knotgrass''}
   \<and> map ld_label (liveDetections
       (step (Settle 0 (Parsed (sample_data
                [sample_raw ''Fat Hen'' (Some sample_bbox),
                 sample_raw ''Redshank'' (Some (take 2 sample_bbox)),
                 sample_raw ''Knotgrass'' None])) 1000)
          (run initial [ToggleCamera (Some 1), Tick (Some 4) True])))
       = [''Fat Hen'']"
proof -
  let ?s = "run initial [ToggleCamera (Some 1), Tick (Some 4) True]"
  let ?raw = "[sample_raw ''Fat Hen'' (Some sample_bbox),
                 sample_raw ''Redshank'' (Some (take 2 sample_bbox)),
                 sample_raw ''Knotgrass'' None]"
  have inf: "inflight ?s = [1]" and rid: "run_id ?s = 1" and none: "detectedWeedTypes ?s = {}"
    by (simp_all add: live_defs)
  have k: "0 < length (inflight ?s)" and m: "inflight ?s ! 0 = run_id ?s"
    using inf rid by simp_all
  have res: "analyzeWeedImage Beet (Parsed (sample_data ?raw))
               = Inr (as_EcoAnalysis (sample_data ?raw) (Some (map normalize_detection ?raw)))"
    by (simp add: analyzeWeedImage_def sample_data_def)
  have dets: "detections (as_EcoAnalysis (sample_data ?raw) (Some (map normalize_detection ?raw)))
               = Some (map normalize_detection ?raw)"
    by (simp add: as_EcoAnalysis_def)
  from live_reconciliation [OF k m res dets, of 1000] inf rid none show ?thesis
    by (simp add: normalize_detection_def sample_raw_def insert_commute sample_bbox_length)
qed

subsection \<open>The live session\<close>

lemma inflight_ok_initial: "inflight_ok initial"
  by (simp add: inflight_ok_def initial_def)

lemma set_remove_nth: "set (take k xs @ drop (Suc k) xs) \<subseteq> set xs"
  using set_take_subset [of k xs] set_drop_subset [of "Suc k" xs] by auto

lemma resume_fields:
  "inflight (captureFrameAndAnalyze_resume k outcome now s)
     = take k (inflight s) @ drop (Suc k) (inflight s)
   \<and> run_id (captureFrameAndAnalyze_resume k outcome now s) = run_id s
   \<and> interval (captureFrameAndAnalyze_resume k outcome now s) = interval s
   \<and> dispatchCount (captureFrameAndAnalyze_resume k outcome now s) = dispatchCount s
   \<and> disabledWeedTypes (captureFrameAndAnalyze_resume k outcome now s) = disabledWeedTypes s"
  by (simp add: captureFrameAndAnalyze_resume_def reconcile_def Let_def
      split: sum.splits option.splits)

lemma resume_unmounted:
  assumes "inflight s ! k \<noteq> run_id s"
  shows "liveDetections (captureFrameAndAnalyze_resume k outcome now s) = liveDetections s
       \<and> detectedWeedTypes (captureFrameAndAnalyze_resume k outcome now s) = detectedWeedTypes s
       \<and> isLiveInferencing (captureFrameAndAnalyze_resume k outcome now s) = isLiveInferencing s"
  using assms
  by (simp add: captureFrameAndAnalyze_resume_def Let_def split: sum.splits option.splits)

lemma inflight_ok_step: "inflight_ok s \<Longrightarrow> inflight_ok (step e s)"
proof (cases e)
  case (ToggleCamera r)
  assume "inflight_ok s"
  then show ?thesis using ToggleCamera
    by (auto simp: inflight_ok_def toggleCamera_def inference_effect_def
        split: option.splits dest: le_SucI)
next
  case (Tick video ctx)
  assume "inflight_ok s"
  then show ?thesis using Tick
    by (auto simp: inflight_ok_def captureFrameAndAnalyze_call_def Let_def)
next
  case (Settle k outcome now)
  assume "inflight_ok s"
  then show ?thesis using Settle set_remove_nth [of k "inflight s"]
    by (auto simp: inflight_ok_def resume_fields)
next
  case (ToggleWeedType t)
  assume "inflight_ok s"
  then show ?thesis using ToggleWeedType
    by (simp add: inflight_ok_def)
qed

lemma inflight_ok_run: "inflight_ok s \<Longrightarrow> inflight_ok (run s es)"
  by (induction es arbitrary: s) (simp_all add: inflight_ok_step)

lemma stop_makes_stopped:
  assumes "inflight_ok s" and "stream s \<noteq> None"
  shows "stopped (step (ToggleCamera r) s)
       \<and> dispatchCount (step (ToggleCamera r) s) = dispatchCount s"
  using assms
  by (auto simp: stopped_def inflight_ok_def toggleCamera_def inference_effect_def
      less_Suc_eq_le)

lemma stopped_step:
  assumes "stopped s" and "\<not> is_ToggleCamera e"
  shows "stopped (step e s) \<and> dispatchCount (step e s) = dispatchCount s"
proof (cases e)
  case (ToggleCamera r)
  then show ?thesis using assms by simp
next
  case (Tick video ctx)
  then show ?thesis using assms by (simp add: stopped_def)
next
  case (Settle k outcome now)
  show ?thesis
  proof (cases "k < length (inflight s)")
    case False
    then show ?thesis using Settle assms by simp
  next
    case True
    then have "inflight s ! k \<in> set (inflight s)" by simp
    then have old: "inflight s ! k \<noteq> run_id s"
      using assms(1) by (auto simp: stopped_def)
    show ?thesis
      using Settle True assms(1) resume_unmounted [OF old, of outcome now]
        set_remove_nth [of k "inflight s"]
      by (auto simp: stopped_def resume_fields)
  qed
next
  case (ToggleWeedType t)
  then show ?thesis using assms by (simp add: stopped_def)
qed

lemma stopped_run:
  assumes "stopped s" and "\<forall>e \<in> set es. \<not> is_ToggleCamera e"
  shows "stopped (run s es) \<and> dispatchCount (run s es) = dispatchCount s"
  using assms
proof (induction es arbitrary: s)
  case Nil
  then show ?case by simp
next
  case (Cons e es)
  from Cons.prems have st: "stopped (step e s)" and dc: "dispatchCount (step e s) = dispatchCount s"
    using stopped_step [of s e] by simp_all
  from Cons.IH [OF st] Cons.prems(2) dc show ?case by simp
qed

text \<open>
  C1 fails on the code. The guard of line 180 reads the \<^verbatim>\<open>isLiveInferencing\<close>
  that the closure captured when the effect ran; \<^verbatim>\<open>setIsLiveInferencing(true)\<close>
  changes the state of later renders, and the effect, whose dependency list is
  \<^verbatim>\<open>[stream]\<close>, is not run again for them. After a start, the first tick sets
  the flag and calls the analyzer; a second tick before that call settles calls the
  analyzer again: two calls are outstanding.
\<close>

theorem two_ticks_two_dispatches:
  "isLiveInferencing (run initial [ToggleCamera (Some 1), Tick (Some 4) True])
   \<and> inflight (run initial [ToggleCamera (Some 1), Tick (Some 4) True]) = [1]
   \<and> dispatchCount (run initial [ToggleCamera (Some 1), Tick (Some 4) True]) = 1
   \<and> inflight (run initial [ToggleCamera (Some 1), Tick (Some 4) True, Tick (Some 4) True]) = [1, 1]
   \<and> dispatchCount (run initial [ToggleCamera (Some 1), Tick (Some 4) True, Tick (Some 4) True]) = 2"
  by (simp add: live_defs)

text \<open>
  C2, as the code has it. When the \<^verbatim>\<open>try\<close> block of the analyzer wrapper throws,
  the wrapper resolves with an empty detection list, so no exception reaches the cycle;
  the cycle treats it as a result: a call of the current run of the effect replaces the
  displayed regions by the empty list and clears the flag, a call of a cleaned-up run
  changes neither. The known categories stay as they are.
\<close>

theorem failed_cycle:
  assumes "k < length (inflight s)" and "try_block outcome = Inl e"
  shows "(\<exists>r. analyzeWeedImage Beet outcome = Inr r \<and> detections r = Some [])
       \<and> liveDetections (step (Settle k outcome now) s)
           = (if inflight s ! k = run_id s then [] else liveDetections s)
       \<and> detectedWeedTypes (step (Settle k outcome now) s) = detectedWeedTypes s
       \<and> isLiveInferencing (step (Settle k outcome now) s)
           = (if inflight s ! k = run_id s then False else isLiveInferencing s)"
  using assms
  by (simp add: captureFrameAndAnalyze_resume_def analyzeWeedImage_def rate_limit_fallback_def
      failure_fallback_def reconcile_def recordCategories_Nil mappedDetections_Nil)

text \<open>
  The witness of C2: a session that displays one region and has one call outstanding;
  the call is rejected with status 429.
\<close>

theorem failed_cycle_witness:
  "0 < length (inflight (run initial [ToggleCamera (Some 1), Tick (Some 4) True,
        Settle 0 (Parsed (sample_data [sample_raw ''Fat Hen'' (Some sample_bbox)])) 1000,
        Tick (Some 4) True]))
   \<and> try_block (Rejected http_429) = Inl http_429
   \<and> detectedWeedTypes (step (Settle 0 (Rejected http_429) 2000)
       (run initial [ToggleCamera (Some 1), Tick (Some 4) True,
        Settle 0 (Parsed (sample_data [sample_raw ''Fat Hen'' (Some sample_bbox)])) 1000,
        Tick (Some 4) True])) = {''Fat Hen''}
   \<and> liveDetections (step (Settle 0 (Rejected http_429) 2000)
       (run initial [ToggleCamera (Some 1), Tick (Some 4) True,
        Settle 0 (Parsed (sample_data [sample_raw ''Fat Hen'' (Some sample_bbox)])) 1000,
        Tick (Some 4) True])) = []"
proof -
  let ?s = "run initial [ToggleCamera (Some 1), Tick (Some 4) True,
        Settle 0 (Parsed (sample_data [sample_raw ''Fat Hen'' (Some sample_bbox)])) 1000,
        Tick (Some 4) True]"
  have inf: "inflight ?s = [1]" and rid: "run_id ?s = 1"
    and known: "detectedWeedTypes ?s = {''Fat Hen''}"
    by (simp_all add: live_defs service_defs reconcile_defs)
  have k: "0 < length (inflight ?s)" using inf by simp
  have f: "try_block (Rejected http_429) = Inl http_429" by simp
  from failed_cycle [OF k f, of 2000] inf rid known k f show ?thesis
    by simp
qed

text \<open>
  C2 as the specification words it fails: the session displays the region of a
  "Fat Hen"; the next call is rejected with status 429; the region is gone.
\<close>

theorem failed_cycle_empties_regions:
  "liveDetections
     (run initial [ToggleCamera (Some 1), Tick (Some 4) True,
        Settle 0 (Parsed (sample_data [sample_raw ''Fat Hen'' (Some sample_bbox)])) 1000,
        Tick (Some 4) True]) = [sample_box 1000 ''Fat Hen'']
   \<and> liveDetections
     (run initial [ToggleCamera (Some 1), Tick (Some 4) True,
        Settle 0 (Parsed (sample_data [sample_raw ''Fat Hen'' (Some sample_bbox)])) 1000,
        Tick (Some 4) True,
        Settle 0 (Rejected http_429) 2000]) = []
   \<and> liveDetections
     (run initial [ToggleCamera (Some 1), Tick (Some 4) True,
        Settle 0 (Parsed (sample_data [sample_raw ''Fat Hen'' (Some sample_bbox)])) 1000,
        Tick (Some 4) True,
        Settle 0 (Rejected http_429) 2000])
     \<noteq> liveDetections
     (run initial [ToggleCamera (Some 1), Tick (Some 4) True,
        Settle 0 (Parsed (sample_data [sample_raw ''Fat Hen'' (Some sample_bbox)])) 1000,
        Tick (Some 4) True])"
  by (simp add: live_defs service_defs reconcile_defs)

text \<open>
  C3. In a session reached from the initial state, with a stream: after the camera
  button stops it, whatever timer ticks, settling calls and filter clicks follow (no
  further press of the camera button), the analyzer is not called again, and the
  displayed regions and the known categories stay empty: the results of calls that were
  outstanding at the stop are dropped.
\<close>

theorem stop_cancels_timer:
  assumes "stream (run initial es0) \<noteq> None" and "\<forall>e \<in> set es. \<not> is_ToggleCamera e"
  shows "dispatchCount (run (step (ToggleCamera r) (run initial es0)) es)
           = dispatchCount (run initial es0)
       \<and> liveDetections (run (step (ToggleCamera r) (run initial es0)) es) = []
       \<and> detectedWeedTypes (run (step (ToggleCamera r) (run initial es0)) es) = {}
       \<and> \<not> interval (run (step (ToggleCamera r) (run initial es0)) es)"
proof -
  have ok: "inflight_ok (run initial es0)"
    by (rule inflight_ok_run) (rule inflight_ok_initial)
  from stop_makes_stopped [OF ok assms(1), of r]
  have st: "stopped (step (ToggleCamera r) (run initial es0))"
    and dc: "dispatchCount (step (ToggleCamera r) (run initial es0)) = dispatchCount (run initial es0)"
    by simp_all
  from stopped_run [OF st assms(2)] dc show ?thesis
    by (simp add: stopped_def)
qed

text \<open>
  The witness of C3: a session with one call outstanding is stopped; then a tick, the
  call settling with a detection, and another tick.
\<close>

theorem stop_cancels_timer_witness:
  "stream (run initial [ToggleCamera (Some 1), Tick (Some 4) True]) \<noteq> None
   \<and> inflight (run initial [ToggleCamera (Some 1), Tick (Some 4) True]) = [1]
   \<and> dispatchCount
        (run (step (ToggleCamera None) (run initial [ToggleCamera (Some 1), Tick (Some 4) True]))
           [Tick (Some 4) True,
            Settle 0 (Parsed (sample_data [sample_raw ''Redshank'' (Some sample_bbox)])) 1000,
            Tick (Some 4) True]) = 1
   \<and> liveDetections
        (run (step (ToggleCamera None) (run initial [ToggleCamera (Some 1), Tick (Some 4) True]))
           [Tick (Some 4) True,
            Settle 0 (Parsed (sample_data [sample_raw ''Redshank'' (Some sample_bbox)])) 1000,
            Tick (Some 4) True]) = []
   \<and> detectedWeedTypes
        (run (step (ToggleCamera None) (run initial [ToggleCamera (Some 1), Tick (Some 4) True]))
           [Tick (Some 4) True,
            Settle 0 (Parsed (sample_data [sample_raw ''Redshank'' (Some sample_bbox)])) 1000,
            Tick (Some 4) True]) = {}"
proof -
  have pre: "stream (run initial [ToggleCamera (Some 1), Tick (Some 4) True]) \<noteq> None"
    by (simp add: live_defs)
  have evs: "\<forall>e \<in> set [Tick (Some 4) True,
            Settle 0 (Parsed (sample_data [sample_raw ''Redshank'' (Some sample_bbox)])) 1000,
            Tick (Some 4) True]. \<not> is_ToggleCamera e"
    by simp
  have dc: "dispatchCount (run initial [ToggleCamera (Some 1), Tick (Some 4) True]) = 1"
    and inf: "inflight (run initial [ToggleCamera (Some 1), Tick (Some 4) True]) = [1]"
    by (simp_all add: live_defs)
  from stop_cancels_timer [OF pre evs, of None] pre dc inf show ?thesis
    by simp
qed

text \<open>
  C5, as the code has it. Stopping a session releases the stream, empties the displayed
  regions and the known categories, cancels the timer, and leaves the hidden categories
  as they were.
\<close>

theorem stop_resets_session:
  assumes "stream s \<noteq> None"
  shows "stream (step (ToggleCamera r) s) = None
       \<and> liveDetections (step (ToggleCamera r) s) = []
       \<and> detectedWeedTypes (step (ToggleCamera r) s) = {}
       \<and> disabledWeedTypes (step (ToggleCamera r) s) = disabledWeedTypes s
       \<and> \<not> interval (step (ToggleCamera r) s)"
  using assms by (auto simp: toggleCamera_def inference_effect_def)

text \<open>The witness of C5: a live session in which "Redshank" is hidden.\<close>

theorem stop_resets_session_witness:
  "stream (run initial [ToggleCamera (Some 1), ToggleWeedType ''Redshank'']) \<noteq> None
   \<and> stream (step (ToggleCamera None) (run initial [ToggleCamera (Some 1), ToggleWeedType ''Redshank''])) = None
   \<and> detectedWeedTypes (step (ToggleCamera None) (run initial [ToggleCamera (Some 1), ToggleWeedType ''Redshank''])) = {}
   \<and> disabledWeedTypes (step (ToggleCamera None) (run initial [ToggleCamera (Some 1), ToggleWeedType ''Redshank''])) = {''Redshank''}"
proof -
  have live: "stream (run initial [ToggleCamera (Some 1), ToggleWeedType ''Redshank'']) \<noteq> None"
    and hid: "disabledWeedTypes (run initial [ToggleCamera (Some 1), ToggleWeedType ''Redshank'']) = {''Redshank''}"
    by (simp_all add: live_defs)
  from stop_resets_session [OF live, of None] live hid show ?thesis by simp
qed

text \<open>
  C5 as the specification words it fails: a session detects a "Redshank", the user hides
  it, the session is stopped; "Redshank" is still hidden.
\<close>

theorem stop_keeps_hidden:
  "disabledWeedTypes
     (run initial [ToggleCamera (Some 1), Tick (Some 4) True,
        Settle 0 (Parsed (sample_data [sample_raw ''Redshank'' (Some sample_bbox)])) 1000,
        ToggleWeedType ''Redshank'',
        ToggleCamera None]) = {''Redshank''}
   \<and> disabledWeedTypes
     (run initial [ToggleCamera (Some 1), Tick (Some 4) True,
        Settle 0 (Parsed (sample_data [sample_raw ''Redshank'' (Some sample_bbox)])) 1000,
        ToggleWeedType ''Redshank'',
        ToggleCamera None]) \<noteq> {}
   \<and> detectedWeedTypes
     (run initial [ToggleCamera (Some 1), Tick (Some 4) True,
        Settle 0 (Parsed (sample_data [sample_raw ''Redshank'' (Some sample_bbox)])) 1000,
        ToggleWeedType ''Redshank'',
        ToggleCamera None]) = {}
   \<and> stream
     (run initial [ToggleCamera (Some 1), Tick (Some 4) True,
        Settle 0 (Parsed (sample_data [sample_raw ''Redshank'' (Some sample_bbox)])) 1000,
        ToggleWeedType ''Redshank'',
        ToggleCamera None]) = None"
  by (simp add: live_defs service_defs reconcile_defs)

end
